theory Spec2Isabelle
  imports Complex_Main "HOL-Library.Signed_Division" "HOL-Library.Finite_Map"
begin

section \<open>Error values\<close>

text \<open>
  The repository builds every error with the third-party library
  \<^verbatim>\<open>github.com/cockroachdb/errors\<close> (imported as \<^verbatim>\<open>crdberrors\<close>), which is not
  under \<^verbatim>\<open>src/\<close>. Go's \<^verbatim>\<open>error\<close> interface value may be \<^verbatim>\<open>nil\<close>; it is an
  \<open>err option\<close> here, \<open>None\<close> being \<^verbatim>\<open>nil\<close>.
\<close>

text \<open>
  Modelled from the spec: a domain of the library is a named category
  (\<^verbatim>\<open>crdberrors.NamedDomain\<close>), or the absence of one (\<^verbatim>\<open>crdberrors.NoDomain\<close>).
\<close>

datatype domain = NoDomain | NamedDomain string

text \<open>
  Modelled from the spec: the error values of the library (section 3 of the
  specification). An error is an immutable node of a cause chain: a leaf with a message,
  or a wrapper around exactly one cause that carries one annotation: a stack, a domain,
  a detail, a hint, a telemetry key, a mark (the sentinel it associates the error with)
  or a message prefix. \<open>ExchangeError\<close> is the repository's own leaf
  (\<^verbatim>\<open>domain/errors.go\<close>, lines 55-59) with its code, message and retry flag.
\<close>

datatype err =
    leafError string
  | ExchangeError string string bool
  | withStack err
  | withDomain err domain
  | withDetail err string
  | withHint err string
  | withTelemetry err string
  | withMark err err
  | withPrefix err string

type_synonym error = "err option"

text \<open>\<^verbatim>\<open>domain/errors.go\<close>, lines 10-14 and 17-32: the domains and the sentinels.\<close>

definition DomainUsecase :: domain where
  "DomainUsecase = NamedDomain ''usecase''"

definition DomainAdapters :: domain where
  "DomainAdapters = NamedDomain ''adapters''"

definition DomainExchange :: domain where
  "DomainExchange = NamedDomain ''exchange''"

definition ErrTemporary :: err where
  "ErrTemporary = leafError ''temporary error''"

definition ErrPermanent :: err where
  "ErrPermanent = leafError ''permanent error''"

subsection \<open>The library operations the repository calls\<close>

text \<open>
  The operations below follow sections 3, 4.1 and 4.2 of the specification: wrapping
  never mutates the wrapped error and adds one node in front of the chain; a mark
  associates the error with a sentinel; a query walks the chain from the outermost node
  to the root. Every wrapper of the library maps \<^verbatim>\<open>nil\<close> to \<^verbatim>\<open>nil\<close>.
\<close>

text \<open>
  Modelled from the spec: the nodes of the cause chain rooted at an error, outermost
  first.
\<close>

fun chain :: "err \<Rightarrow> err list" where
  "chain (leafError m) = [leafError m]"
| "chain (ExchangeError c m r) = [ExchangeError c m r]"
| "chain (withStack e) = withStack e # chain e"
| "chain (withDomain e d) = withDomain e d # chain e"
| "chain (withDetail e s) = withDetail e s # chain e"
| "chain (withHint e s) = withHint e s # chain e"
| "chain (withTelemetry e s) = withTelemetry e s # chain e"
| "chain (withMark e r) = withMark e r # chain e"
| "chain (withPrefix e s) = withPrefix e s # chain e"

text \<open>
  Modelled from the spec: a node is associated with the sentinel \<open>r\<close> when it is the
  sentinel itself or a mark node made from it (\<^verbatim>\<open>crdberrors.Mark(err, r)\<close>).
\<close>

fun associated :: "err \<Rightarrow> err \<Rightarrow> bool" where
  "associated r (withMark e m) = (withMark e m = r \<or> m = r)"
| "associated r c = (c = r)"

text \<open>Modelled from the spec: \<^verbatim>\<open>crdberrors.Is(err, reference)\<close>, for a non-nil reference.\<close>

definition crdberrors_Is :: "error \<Rightarrow> err \<Rightarrow> bool" where
  "crdberrors_Is e r = (case e of None \<Rightarrow> False | Some c \<Rightarrow> list_ex (associated r) (chain c))"

text \<open>Modelled from the spec: \<^verbatim>\<open>crdberrors.Mark(err, reference)\<close>.\<close>

definition crdberrors_Mark :: "error \<Rightarrow> err \<Rightarrow> error" where
  "crdberrors_Mark e r = map_option (\<lambda>c. withMark c r) e"

text \<open>Modelled from the spec: \<^verbatim>\<open>crdberrors.New(msg)\<close>; the leaf carries its stack.\<close>

definition crdberrors_New :: "string \<Rightarrow> error" where
  "crdberrors_New msg = Some (leafError msg)"

text \<open>Modelled from the spec: \<^verbatim>\<open>crdberrors.WithStack(err)\<close> attaches a stack.\<close>

definition crdberrors_WithStack :: "error \<Rightarrow> error" where
  "crdberrors_WithStack e = map_option withStack e"

text \<open>Modelled from the spec: \<^verbatim>\<open>crdberrors.WithDomain(err, domain)\<close> attaches a domain.\<close>

definition crdberrors_WithDomain :: "error \<Rightarrow> domain \<Rightarrow> error" where
  "crdberrors_WithDomain e d = map_option (\<lambda>c. withDomain c d) e"

text \<open>
  Modelled from the spec: \<^verbatim>\<open>crdberrors.WithDetailf(err, format, args...)\<close> attaches a
  detail; the model takes the formatted text.
\<close>

definition crdberrors_WithDetail :: "error \<Rightarrow> string \<Rightarrow> error" where
  "crdberrors_WithDetail e s = map_option (\<lambda>c. withDetail c s) e"

text \<open>Modelled from the spec: \<^verbatim>\<open>crdberrors.WithHint(err, msg)\<close> attaches a hint.\<close>

definition crdberrors_WithHint :: "error \<Rightarrow> string \<Rightarrow> error" where
  "crdberrors_WithHint e s = map_option (\<lambda>c. withHint c s) e"

text \<open>
  Modelled from the spec: \<^verbatim>\<open>crdberrors.WithTelemetry(err, key)\<close> attaches a telemetry
  key.
\<close>

definition crdberrors_WithTelemetry :: "error \<Rightarrow> string \<Rightarrow> error" where
  "crdberrors_WithTelemetry e s = map_option (\<lambda>c. withTelemetry c s) e"

text \<open>
  Modelled from the spec: \<^verbatim>\<open>crdberrors.Wrap(err, msg)\<close> and
  \<^verbatim>\<open>crdberrors.Wrapf(err, format, args...)\<close> add a message prefix and a stack;
  \<^verbatim>\<open>nil\<close> stays \<^verbatim>\<open>nil\<close>. The model takes the formatted text.
\<close>

definition crdberrors_Wrap :: "error \<Rightarrow> string \<Rightarrow> error" where
  "crdberrors_Wrap e msg = map_option (\<lambda>c. withStack (withPrefix c msg)) e"

text \<open>
  Modelled from the spec: the domain of the outermost domain node of a chain,
  \<open>NoDomain\<close> when there is none.
\<close>

fun GetDomain_chain :: "err list \<Rightarrow> domain" where
  "GetDomain_chain [] = NoDomain"
| "GetDomain_chain (withDomain e d # cs) = d"
| "GetDomain_chain (c # cs) = GetDomain_chain cs"

text \<open>Modelled from the spec: \<^verbatim>\<open>crdberrors.GetDomain(err)\<close>.\<close>

definition crdberrors_GetDomain :: "error \<Rightarrow> domain" where
  "crdberrors_GetDomain e = (case e of None \<Rightarrow> NoDomain | Some c \<Rightarrow> GetDomain_chain (chain c))"

text \<open>
  Modelled from the spec: the text of an error (Go's \<^verbatim>\<open>Error()\<close>). The text of an
  \<open>ExchangeError\<close> is the one of \<^verbatim>\<open>domain/errors.go\<close>, lines 61-63; a prefix node of
  the library prints its prefix, a colon and the text of its cause; every other wrapper
  of the library prints the text of its cause.
\<close>

fun Error :: "err \<Rightarrow> string" where
  "Error (leafError m) = m"
| "Error (ExchangeError c m r) = ''exchange error ['' @ c @ '']: '' @ m"
| "Error (withStack e) = Error e"
| "Error (withDomain e d) = Error e"
| "Error (withDetail e s) = Error e"
| "Error (withHint e s) = Error e"
| "Error (withTelemetry e s) = Error e"
| "Error (withMark e r) = Error e"
| "Error (withPrefix e s) = s @ '': '' @ Error e"

section \<open>Classification and domain helpers (\<^verbatim>\<open>domain/errors.go\<close>)\<close>

definition MarkTemporary :: "error \<Rightarrow> error" where
  "MarkTemporary e = crdberrors_Mark e ErrTemporary"

definition IsTemporary :: "error \<Rightarrow> bool" where
  "IsTemporary e = crdberrors_Is e ErrTemporary"

definition MarkPermanent :: "error \<Rightarrow> error" where
  "MarkPermanent e = crdberrors_Mark e ErrPermanent"

definition IsPermanent :: "error \<Rightarrow> bool" where
  "IsPermanent e = crdberrors_Is e ErrPermanent"

text \<open>Go's \<^verbatim>\<open>%v\<close> of a boolean.\<close>

definition fmt_bool :: "bool \<Rightarrow> string" where
  "fmt_bool b = (if b then ''true'' else ''false'')"

definition NewExchangeError :: "string \<Rightarrow> string \<Rightarrow> bool \<Rightarrow> error" where
  "NewExchangeError code message retry =
     (let base = Some (ExchangeError code message retry);
          wrapped = crdberrors_WithDomain (crdberrors_WithStack base) DomainExchange;
          wrapped = crdberrors_WithDetail wrapped (''code='' @ code @ '' retry='' @ fmt_bool retry);
          wrapped =
            (if retry
             then crdberrors_WithHint (MarkTemporary wrapped)
                    ''This error is temporary and can be retried''
             else crdberrors_WithHint (MarkPermanent wrapped)
                    ''This error is permanent and should not be retried'')
      in crdberrors_WithTelemetry wrapped (''exchange.error.'' @ code))"

definition WrapWithDomain :: "error \<Rightarrow> string \<Rightarrow> domain \<Rightarrow> error" where
  "WrapWithDomain e msg d =
     (if e = None then None else crdberrors_WithDomain (crdberrors_Wrap e msg) d)"

definition WrapWithStack :: "error \<Rightarrow> string \<Rightarrow> error" where
  "WrapWithStack e msg =
     (if e = None then None else crdberrors_WithStack (crdberrors_Wrap e msg))"

section \<open>The logging facade (package \<^verbatim>\<open>logx\<close>, \<^verbatim>\<open>src/unnamed/part_000\<close>)\<close>

text \<open>
  A logging argument is a Go value of type \<^verbatim>\<open>any\<close>. The facade looks at one thing
  only: whether the dynamic type of a key is \<^verbatim>\<open>string\<close>. So a value is either a
  text or a value of some other type \<open>'a\<close>.
\<close>

datatype 'a any = Text string | Other 'a

text \<open>\<^verbatim>\<open>slog.Any(k, val)\<close>: an attribute is a text key with a value.\<close>

datatype 'a Attr = Attr string "'a any"

text \<open>
  \<^verbatim>\<open>argsToAttrs\<close>, lines 168-184 of the facade. The default stringification
  \<^verbatim>\<open>fmt.Sprint\<close> belongs to Go's standard library and is a parameter. The loop
  \<^verbatim>\<open>for i := 0; i+1 < len(kv); i += 2\<close> is a recursion on the index; both reads are
  in range under the loop condition.
\<close>

function argsToAttrs_loop ::
  "('a any \<Rightarrow> string) \<Rightarrow> 'a any list \<Rightarrow> nat \<Rightarrow> 'a Attr list \<Rightarrow> 'a Attr list" where
  "argsToAttrs_loop Sprint kv i attrs =
     (if i + 1 < length kv then
        (let key = kv ! i; val = kv ! (i + 1);
             k = (case key of Text t \<Rightarrow> t | Other x \<Rightarrow> Sprint key)
         in argsToAttrs_loop Sprint kv (i + 2) (attrs @ [Attr k val]))
      else attrs)"
  by pat_completeness auto
termination
  by (relation "measure (\<lambda>(Sprint, kv, i, attrs). length kv - i)") auto

definition argsToAttrs :: "('a any \<Rightarrow> string) \<Rightarrow> 'a any list \<Rightarrow> 'a Attr list" where
  "argsToAttrs Sprint kv =
     (let kv = (if length kv mod 2 \<noteq> 0 then take (length kv - 1) kv else kv)
      in argsToAttrs_loop Sprint kv 0 [])"

text \<open>
  The same conversion written by recursion on the list: the text of a key, and the
  attributes of the consecutive pairs. It is shown below to agree with the loop.
\<close>

fun key_text :: "('a any \<Rightarrow> string) \<Rightarrow> 'a any \<Rightarrow> string" where
  "key_text Sprint (Text t) = t"
| "key_text Sprint (Other x) = Sprint (Other x)"

fun pairs :: "('a any \<Rightarrow> string) \<Rightarrow> 'a any list \<Rightarrow> 'a Attr list" where
  "pairs Sprint (k # v # rest) = Attr (key_text Sprint k) v # pairs Sprint rest"
| "pairs Sprint kv = []"

section \<open>Retry with backoff (\<^verbatim>\<open>examples/02_domain_classification/main.go\<close>)\<close>

text \<open>
  The source of this example is the Go program that follows the README text in
  \<^verbatim>\<open>src/README.md\<close>; \<^verbatim>\<open>RetryWithBackoff\<close> is at lines 428-496 of that file.
\<close>

text \<open>
  \<^verbatim>\<open>time.Duration\<close> is a signed 64-bit count of nanoseconds. Durations are integers
  here, and every arithmetic result is brought back into the 64-bit range by \<open>wrap64\<close>,
  as Go's arithmetic does. Go's integer division truncates towards zero (\<open>sdiv\<close>).
\<close>

type_synonym Duration = int

definition wrap64 :: "int \<Rightarrow> int" where
  "wrap64 x = (x + 2 ^ 63) mod 2 ^ 64 - 2 ^ 63"

definition Millisecond :: Duration where
  "Millisecond = 1000000"

definition Second :: Duration where
  "Second = 1000000000"

text \<open>
  Go's \<^verbatim>\<open>%d\<close> of an integer: decimal digits, with a minus sign when negative.
  \<open>digit_char\<close> is only applied to numbers below ten.
\<close>

definition digit_char :: "nat \<Rightarrow> char" where
  "digit_char n = ''0123456789'' ! n"

function fmt_nat :: "nat \<Rightarrow> string" where
  "fmt_nat n = (if n < 10 then [digit_char n] else fmt_nat (n div 10) @ [digit_char (n mod 10)])"
  by pat_completeness auto
termination
  by (relation "measure id") auto

definition fmt_int :: "int \<Rightarrow> string" where
  "fmt_int i = (if i < 0 then ''-'' @ fmt_nat (nat (- i)) else fmt_nat (nat i))"

text \<open>
  The context the driver makes for itself with
  \<^verbatim>\<open>context.WithCancel(context.Background())\<close>. The only thing that cancels it is the
  \<^verbatim>\<open>cancel\<close> function, which the driver keeps to itself and calls (deferred) when it
  returns; the operation receives the context and can read it, not cancel it.
\<close>

record Context =
  cancelled :: bool

definition context_WithCancel_Background :: Context where
  "context_WithCancel_Background = \<lparr>cancelled = False\<rparr>"

definition context_Canceled :: err where
  "context_Canceled = leafError ''context canceled''"

definition ctx_Err :: "Context \<Rightarrow> error" where
  "ctx_Err ctx = (if cancelled ctx then Some context_Canceled else None)"

text \<open>
  The \<^verbatim>\<open>select\<close> of the backoff wait: the channel \<^verbatim>\<open>ctx.Done()\<close> is ready exactly
  when the context has been cancelled; otherwise the timer is the only case that can
  fire.
\<close>

datatype selected = TimerFired | CtxDone

definition select_wait :: "Context \<Rightarrow> selected" where
  "select_wait ctx = (if cancelled ctx then CtxDone else TimerFired)"

text \<open>
  What the driver does to the world, in order: it invokes the operation, it sleeps for
  a duration, it calls the logging facade.
\<close>

datatype val = VInt int | VBool bool | VDuration Duration

datatype logcall =
    Info string "val any list"
  | ErrorErr string error "val any list"
  | WarnErr string error "val any list"

datatype event = Invoke | Wait Duration | Log logcall

record 's world =
  opstate :: 's
  trace :: "event list"

definition emit :: "event \<Rightarrow> 's world \<Rightarrow> 's world" where
  "emit ev w = w\<lparr>trace := trace w @ [ev]\<rparr>"

text \<open>
  The operation is a Go closure: it reads the context, may change its own state \<open>'s\<close>,
  and returns an error or \<^verbatim>\<open>nil\<close>.
\<close>

type_synonym 's operation = "Context \<Rightarrow> 's \<Rightarrow> error \<times> 's"

text \<open>
  One pass through the body of the \<^verbatim>\<open>for\<close> loop. It either returns from the driver
  or goes on to the next attempt with a delay and a last error.
\<close>

datatype 's step = Return error "'s world" | Next Duration error "'s world"

definition attempt_body ::
  "'s operation \<Rightarrow> Context \<Rightarrow> int \<Rightarrow> int \<Rightarrow> Duration \<Rightarrow> 's world \<Rightarrow> 's step" where
  "attempt_body operation ctx maxRetries attempt delay w =
     (let (err, s') = operation ctx (opstate w);
          w = emit Invoke (w\<lparr>opstate := s'\<rparr>)
      in if err = None then
           Return None
             (if attempt > 1
              then emit (Log (Info ''Operation succeeded after retry''
                     [Text ''attempt'', Other (VInt attempt),
                      Text ''max_retries'', Other (VInt maxRetries)])) w
              else w)
         else if \<not> IsTemporary err then
           Return err
             (emit (Log (ErrorErr ''Operation failed with permanent error'' err
                [Text ''attempt'', Other (VInt attempt),
                 Text ''retry'', Other (VBool False)])) w)
         else if attempt < maxRetries then
           (let w = emit (Log (WarnErr ''Operation failed with temporary error, retrying'' err
                      [Text ''attempt'', Other (VInt attempt),
                       Text ''max_retries'', Other (VInt maxRetries),
                       Text ''retry_delay'', Other (VDuration delay)])) w;
                d = wrap64 (delay + delay sdiv 5)
            in case select_wait ctx of
                 CtxDone \<Rightarrow> Return (ctx_Err ctx) w
               | TimerFired \<Rightarrow>
                   (let w = emit (Wait d) w;
                        delay = wrap64 (delay * 2);
                        delay = (if delay > 5 * Second then 5 * Second else delay)
                    in Next delay err w))
         else
           Next delay err
             (emit (Log (ErrorErr ''Operation failed after max retries'' err
                [Text ''attempt'', Other (VInt attempt),
                 Text ''max_retries'', Other (VInt maxRetries)])) w))"

text \<open>
  The loop \<^verbatim>\<open>for attempt := 1; attempt <= maxRetries; attempt++\<close> and the return after
  it, for the runs in which the counter does not overflow: the counter is an unbounded
  integer here, and the loop always ends. \<open>retry_loop_int64\<close> below is the loop with
  Go's counter.
\<close>

function retry_loop ::
  "'s operation \<Rightarrow> Context \<Rightarrow> int \<Rightarrow> int \<Rightarrow> Duration \<Rightarrow> error \<Rightarrow> 's world \<Rightarrow> error \<times> 's world" where
  "retry_loop operation ctx maxRetries attempt delay lastErr w =
     (if attempt \<le> maxRetries then
        (case attempt_body operation ctx maxRetries attempt delay w of
           Return r w' \<Rightarrow> (r, w')
         | Next delay' lastErr' w' \<Rightarrow>
             retry_loop operation ctx maxRetries (attempt + 1) delay' lastErr' w')
      else
        (crdberrors_Wrap lastErr (''operation failed after '' @ fmt_int maxRetries @ '' attempts''), w))"
  by pat_completeness auto
termination
  by (relation "measure (\<lambda>(operation, ctx, maxRetries, attempt, delay, lastErr, w).
        nat (maxRetries + 1 - attempt))") auto

definition RetryWithBackoff ::
  "'s operation \<Rightarrow> int \<Rightarrow> Duration \<Rightarrow> 's \<Rightarrow> error \<times> 's world" where
  "RetryWithBackoff operation maxRetries initialDelay s =
     retry_loop operation context_WithCancel_Background maxRetries 1 initialDelay None
       \<lparr>opstate = s, trace = []\<rparr>"

text \<open>
  The loop as Go runs it. \<^verbatim>\<open>attempt\<close> and \<^verbatim>\<open>maxRetries\<close> are of type \<^verbatim>\<open>int\<close>, 64 bits
  wide on the usual platforms, and \<^verbatim>\<open>attempt++\<close> wraps around from the largest
  \<^verbatim>\<open>int\<close> to the smallest. The loop need not end, so the driver's result is an
  option: \<open>None\<close> when the driver never returns.
\<close>

definition MaxInt :: int where
  "MaxInt = 2 ^ 63 - 1"

partial_function (option) retry_loop_int64 ::
  "'s operation \<Rightarrow> Context \<Rightarrow> int \<Rightarrow> int \<Rightarrow> Duration \<Rightarrow> error \<Rightarrow> 's world \<Rightarrow>
   (error \<times> 's world) option" where
  "retry_loop_int64 operation ctx maxRetries attempt delay lastErr w =
     (if attempt \<le> maxRetries then
        (case attempt_body operation ctx maxRetries attempt delay w of
           Return r w' \<Rightarrow> Some (r, w')
         | Next delay' lastErr' w' \<Rightarrow>
             retry_loop_int64 operation ctx maxRetries (wrap64 (attempt + 1)) delay' lastErr' w')
      else
        Some (crdberrors_Wrap lastErr
          (''operation failed after '' @ fmt_int maxRetries @ '' attempts''), w))"

definition RetryWithBackoff_int64 ::
  "'s operation \<Rightarrow> int \<Rightarrow> Duration \<Rightarrow> 's \<Rightarrow> (error \<times> 's world) option" where
  "RetryWithBackoff_int64 operation maxRetries initialDelay s =
     retry_loop_int64 operation context_WithCancel_Background maxRetries 1 initialDelay None
       \<lparr>opstate = s, trace = []\<rparr>"

text \<open>What an observer counts in a trace: the invocations and the waits.\<close>

definition invocations :: "event list \<Rightarrow> nat" where
  "invocations t = length (filter (\<lambda>ev. ev = Invoke) t)"

fun waits :: "event list \<Rightarrow> Duration list" where
  "waits [] = []"
| "waits (Wait d # t) = d # waits t"
| "waits (ev # t) = waits t"

text \<open>
  The number of backoff waits the driver has announced in a trace: it logs the warning
  \<^verbatim>\<open>Operation failed with temporary error, retrying\<close> right before each wait.
\<close>

fun warned :: "event list \<Rightarrow> nat" where
  "warned [] = 0"
| "warned (Log (WarnErr m e kv) # t) = Suc (warned t)"
| "warned (ev # t) = warned t"

text \<open>
  The wait of one retry round and the delay of the next round, as the loop body
  computes them from the current delay.
\<close>

definition jittered :: "Duration \<Rightarrow> Duration" where
  "jittered delay = wrap64 (delay + delay sdiv 5)"

definition doubled :: "Duration \<Rightarrow> Duration" where
  "doubled delay =
     (let delay = wrap64 (delay * 2) in if delay > 5 * Second then 5 * Second else delay)"

text \<open>
  The state of the operation after \<open>k\<close> invocations by the driver, and what invocation
  number \<open>k + 1\<close> returns.
\<close>

definition state_after :: "'s operation \<Rightarrow> nat \<Rightarrow> 's \<Rightarrow> 's" where
  "state_after operation k s = ((\<lambda>s. snd (operation context_WithCancel_Background s)) ^^ k) s"

definition outcome :: "'s operation \<Rightarrow> nat \<Rightarrow> 's \<Rightarrow> error" where
  "outcome operation k s = fst (operation context_WithCancel_Background (state_after operation k s))"

subsection \<open>The operations of the example\<close>

text \<open>
  \<^verbatim>\<open>ExchangeAPI.FetchPrice\<close>: the first two calls fail with a retriable error, the
  third succeeds, every later call fails with a permanent error. The counter is a Go
  \<^verbatim>\<open>int\<close>, so \<^verbatim>\<open>failureCount++\<close> wraps around.
\<close>

record ExchangeAPI =
  failureCount :: int

definition FetchPrice :: "ExchangeAPI \<Rightarrow> string \<Rightarrow> (real \<times> error) \<times> ExchangeAPI" where
  "FetchPrice api symbol =
     (let api = api\<lparr>failureCount := wrap64 (failureCount api + 1)\<rparr>
      in if failureCount api = 1 then
           ((0, NewExchangeError ''NETWORK_ERROR'' ''connection timeout'' True), api)
         else if failureCount api = 2 then
           ((0, NewExchangeError ''RATE_LIMIT'' ''too many requests'' True), api)
         else if failureCount api = 3 then
           ((50000, None), api)
         else
           ((0, NewExchangeError ''INVALID_SYMBOL'' ''symbol not found'' False), api))"

text \<open>\<^verbatim>\<open>DatabaseService.SavePrice\<close> always fails with a temporary error.\<close>

definition SavePrice :: "string \<Rightarrow> real \<Rightarrow> error" where
  "SavePrice symbol price =
     (let err = crdberrors_New ''connection pool exhausted'';
          err = MarkTemporary err;
          err = crdberrors_WithDomain err DomainAdapters;
          err = crdberrors_WithHint err
                  ''Database connection pool is full, retry after a short delay''
      in WrapWithStack err ''failed to save price to database'')"

text \<open>
  Two closures of the kind \<^verbatim>\<open>main\<close> hands to the driver: one fetches a price from
  the exchange client it captured, the other saves a price.
\<close>

definition fetch_operation :: "ExchangeAPI operation" where
  "fetch_operation ctx api = (let ((price, err), api') = FetchPrice api ''BTC/USD'' in (err, api'))"

definition save_operation :: "unit operation" where
  "save_operation ctx u = (SavePrice ''BTC/USD'' 50000, u)"

section \<open>The user service (\<^verbatim>\<open>examples/04_http_handler/main.go\<close>)\<close>

text \<open>
  The store is a Go map from identifiers to users; \<^verbatim>\<open>len\<close> of the map is the number
  of its keys. An instant of \<^verbatim>\<open>time.Now()\<close> is given by its Unix seconds.
\<close>

record User =
  ID :: int
  Name :: string
  Email :: string
  CreatedAt :: int

record UserService =
  users :: "(int, User) fmap"

definition len_users :: "UserService \<Rightarrow> int" where
  "len_users s = int (fcard (fmdom (users s)))"

text \<open>\<^verbatim>\<open>NewUserService\<close> reads the clock once for each of its three users.\<close>

definition NewUserService :: "int \<Rightarrow> int \<Rightarrow> int \<Rightarrow> UserService" where
  "NewUserService t1 t2 t3 =
     \<lparr>users =
        fmupd 3 \<lparr>ID = 3, Name = ''Charlie'', Email = ''charlie@example.com'', CreatedAt = t3\<rparr>
       (fmupd 2 \<lparr>ID = 2, Name = ''Bob'', Email = ''bob@example.com'', CreatedAt = t2\<rparr>
       (fmupd 1 \<lparr>ID = 1, Name = ''Alice'', Email = ''alice@example.com'', CreatedAt = t1\<rparr>
        fmempty))\<rparr>"

text \<open>
  \<^verbatim>\<open>GetUser\<close> and \<^verbatim>\<open>CreateUser\<close> have a pointer receiver: they take the service
  and the clock reading \<open>now\<close>, and return their results with the service as they
  leave it.
\<close>

definition GetUser :: "UserService \<Rightarrow> int \<Rightarrow> int \<Rightarrow> (User option \<times> error) \<times> UserService" where
  "GetUser s now uid =
     (if now smod 10 = 0 then
        (let err = crdberrors_New ''database connection timeout'';
             err = MarkTemporary err;
             err = crdberrors_WithDomain err DomainAdapters;
             err = crdberrors_WithHint err ''Retry the request''
         in ((None, WrapWithStack err ''failed to fetch user from database''), s))
      else
        (case fmlookup (users s) uid of
           None \<Rightarrow>
             (let err = crdberrors_New (''user with id '' @ fmt_int uid @ '' not found'');
                  err = crdberrors_WithDomain err DomainAdapters;
                  err = MarkPermanent err
              in ((None, err), s))
         | Some user \<Rightarrow> ((Some user, None), s)))"

definition CreateUser ::
  "UserService \<Rightarrow> int \<Rightarrow> string \<Rightarrow> string \<Rightarrow> (User option \<times> error) \<times> UserService" where
  "CreateUser s now name email =
     (if name = [] then
        (let err = crdberrors_New ''name is required'';
             err = crdberrors_WithDomain err DomainUsecase;
             err = MarkPermanent err;
             err = crdberrors_WithHint err ''Provide a valid name''
         in ((None, err), s))
      else if email = [] then
        (let err = crdberrors_New ''email is required'';
             err = crdberrors_WithDomain err DomainUsecase;
             err = MarkPermanent err;
             err = crdberrors_WithHint err ''Provide a valid email address''
         in ((None, err), s))
      else
        (let newID = len_users s + 1;
             user = \<lparr>ID = newID, Name = name, Email = email, CreatedAt = now\<rparr>
         in ((Some user, None), s\<lparr>users := fmupd newID user (users s)\<rparr>)))"

text \<open>
  The stores the program can hold: the one \<^verbatim>\<open>NewUserService\<close> makes, and what the
  two methods leave of a store the program can hold.
\<close>

inductive reachable :: "UserService \<Rightarrow> bool" where
  init: "reachable (NewUserService t1 t2 t3)"
| get: "reachable s \<Longrightarrow> reachable (snd (GetUser s now uid))"
| create: "reachable s \<Longrightarrow> reachable (snd (CreateUser s now name email))"

section \<open>Properties of the classification helpers\<close>

lemma Is_Mark_same: "crdberrors_Is (crdberrors_Mark (Some e) r) r"
  by (simp add: crdberrors_Is_def crdberrors_Mark_def)

lemma Is_Mark_other:
  "leafError a \<noteq> leafError b \<Longrightarrow>
   crdberrors_Is (crdberrors_Mark (Some e) (leafError a)) (leafError b) =
   crdberrors_Is (Some e) (leafError b)"
  by (simp add: crdberrors_Is_def crdberrors_Mark_def)

text \<open>
  C4, as the code has it. For every non-nil error \<open>e\<close>: marking \<open>e\<close> temporary makes it
  temporary and leaves the answer of the permanent query as it was for \<open>e\<close>; marking
  \<open>e\<close> permanent makes it permanent and leaves the answer of the temporary query as it
  was for \<open>e\<close>. So \<open>IsPermanent (MarkTemporary e)\<close> is false exactly when \<open>e\<close> was not
  permanent before, and symmetrically.
\<close>

theorem mark_then_query:
  "IsTemporary (MarkTemporary (Some e)) \<and>
   IsPermanent (MarkTemporary (Some e)) = IsPermanent (Some e) \<and>
   IsPermanent (MarkPermanent (Some e)) \<and>
   IsTemporary (MarkPermanent (Some e)) = IsTemporary (Some e)"
  by (simp add: IsTemporary_def IsPermanent_def MarkTemporary_def MarkPermanent_def
      ErrTemporary_def ErrPermanent_def Is_Mark_same Is_Mark_other)

text \<open>
  C4 as stated fails: an error that already carries the permanent mark is still
  permanent after it is marked temporary, and the other way round.
\<close>

theorem mark_temporary_keeps_permanent:
  "IsPermanent (MarkTemporary (MarkPermanent (crdberrors_New ''boom''))) \<and>
   IsTemporary (MarkPermanent (MarkTemporary (crdberrors_New ''boom'')))"
  by (simp add: IsTemporary_def IsPermanent_def MarkTemporary_def MarkPermanent_def
      ErrTemporary_def ErrPermanent_def crdberrors_Is_def crdberrors_Mark_def crdberrors_New_def)

text \<open>
  C8. For every code and message, \<open>NewExchangeError code message retry\<close> is a non-nil
  error; when \<open>retry\<close> is true it is temporary and not permanent, when \<open>retry\<close> is false
  it is permanent and not temporary; its domain is the exchange domain.
\<close>

theorem NewExchangeError_classified:
  "NewExchangeError code message retry \<noteq> None \<and>
   (retry \<longrightarrow> IsTemporary (NewExchangeError code message retry) \<and>
              \<not> IsPermanent (NewExchangeError code message retry)) \<and>
   (\<not> retry \<longrightarrow> IsPermanent (NewExchangeError code message retry) \<and>
              \<not> IsTemporary (NewExchangeError code message retry)) \<and>
   crdberrors_GetDomain (NewExchangeError code message retry) = DomainExchange"
  by (cases retry)
     (simp_all add: NewExchangeError_def Let_def IsTemporary_def IsPermanent_def
      MarkTemporary_def MarkPermanent_def ErrTemporary_def ErrPermanent_def
      crdberrors_Is_def crdberrors_Mark_def crdberrors_WithDomain_def crdberrors_WithStack_def
      crdberrors_WithDetail_def crdberrors_WithHint_def crdberrors_WithTelemetry_def
      crdberrors_GetDomain_def)

theorem NewExchangeError_classified_witness:
  "(IsTemporary (NewExchangeError ''RATE_LIMIT'' ''too many requests'' True) \<and>
    \<not> IsPermanent (NewExchangeError ''RATE_LIMIT'' ''too many requests'' True)) \<and>
   (IsPermanent (NewExchangeError ''INVALID_SYMBOL'' ''symbol not found'' False) \<and>
    \<not> IsTemporary (NewExchangeError ''INVALID_SYMBOL'' ''symbol not found'' False))"
  using NewExchangeError_classified [of "''RATE_LIMIT''" "''too many requests''" True]
        NewExchangeError_classified [of "''INVALID_SYMBOL''" "''symbol not found''" False]
  by simp

text \<open>
  C10. \<open>WrapWithDomain\<close> and \<open>WrapWithStack\<close> return nil when the error is nil, for
  every message and domain.
\<close>

theorem wrap_nil_is_nil:
  "WrapWithDomain None msg d = None \<and> WrapWithStack None msg = None"
  by (simp add: WrapWithDomain_def WrapWithStack_def)

section \<open>Properties of the retry driver\<close>

declare retry_loop.simps [simp del] argsToAttrs_loop.simps [simp del] fmt_nat.simps [simp del]

lemma IsTemporary_not_None: "IsTemporary err \<Longrightarrow> err \<noteq> None"
  by (cases err) (simp_all add: IsTemporary_def crdberrors_Is_def)

lemma select_wait_own [simp]: "select_wait context_WithCancel_Background = TimerFired"
  by (simp add: select_wait_def context_WithCancel_Background_def)

lemma body_success:
  "operation ctx (opstate w) = (None, s') \<Longrightarrow>
   attempt_body operation ctx maxRetries attempt delay w =
     Return None
       (if attempt > 1
        then emit (Log (Info ''Operation succeeded after retry''
               [Text ''attempt'', Other (VInt attempt),
                Text ''max_retries'', Other (VInt maxRetries)])) (emit Invoke (w\<lparr>opstate := s'\<rparr>))
        else emit Invoke (w\<lparr>opstate := s'\<rparr>))"
  by (simp add: attempt_body_def Let_def)

lemma body_permanent:
  "operation ctx (opstate w) = (err, s') \<Longrightarrow> err \<noteq> None \<Longrightarrow> \<not> IsTemporary err \<Longrightarrow>
   attempt_body operation ctx maxRetries attempt delay w =
     Return err
       (emit (Log (ErrorErr ''Operation failed with permanent error'' err
                [Text ''attempt'', Other (VInt attempt),
                 Text ''retry'', Other (VBool False)])) (emit Invoke (w\<lparr>opstate := s'\<rparr>)))"
  by (auto simp: attempt_body_def Let_def)

lemma body_retry:
  "operation context_WithCancel_Background (opstate w) = (err, s') \<Longrightarrow> IsTemporary err \<Longrightarrow>
   attempt < maxRetries \<Longrightarrow>
   attempt_body operation context_WithCancel_Background maxRetries attempt delay w =
     Next (doubled delay) err
       (emit (Wait (jittered delay))
         (emit (Log (WarnErr ''Operation failed with temporary error, retrying'' err
                      [Text ''attempt'', Other (VInt attempt),
                       Text ''max_retries'', Other (VInt maxRetries),
                       Text ''retry_delay'', Other (VDuration delay)]))
           (emit Invoke (w\<lparr>opstate := s'\<rparr>))))"
  by (frule IsTemporary_not_None) (simp add: attempt_body_def jittered_def doubled_def Let_def)

lemma body_exhausted:
  "operation ctx (opstate w) = (err, s') \<Longrightarrow> IsTemporary err \<Longrightarrow>
   \<not> attempt < maxRetries \<Longrightarrow>
   attempt_body operation ctx maxRetries attempt delay w =
     Next delay err
       (emit (Log (ErrorErr ''Operation failed after max retries'' err
                [Text ''attempt'', Other (VInt attempt),
                 Text ''max_retries'', Other (VInt maxRetries)])) (emit Invoke (w\<lparr>opstate := s'\<rparr>)))"
  by (frule IsTemporary_not_None) (simp add: attempt_body_def Let_def)

lemma invocations_append [simp]: "invocations (t @ u) = invocations t + invocations u"
  by (simp add: invocations_def)

lemma waits_append [simp]: "waits (t @ u) = waits t @ waits u"
  by (induction t rule: waits.induct) simp_all

lemma invocations_simps [simp]:
  "invocations [] = 0" "invocations (Invoke # t) = Suc (invocations t)"
  "invocations (Wait d # t) = invocations t" "invocations (Log l # t) = invocations t"
  by (simp_all add: invocations_def)

lemma state_after_0 [simp]: "state_after operation 0 s = s"
  by (simp add: state_after_def)

lemma state_after_Suc:
  "state_after operation (Suc k) s = state_after operation k (snd (operation context_WithCancel_Background s))"
  by (simp only: state_after_def funpow_Suc_right o_apply)

lemma outcome_0: "outcome operation 0 s = fst (operation context_WithCancel_Background s)"
  by (simp add: outcome_def)

lemma outcome_Suc:
  "outcome operation (Suc k) s = outcome operation k (snd (operation context_WithCancel_Background s))"
  by (simp add: outcome_def state_after_Suc)

lemma retry_schedule:
  "\<forall>k<j. IsTemporary (outcome operation k (opstate w)) \<Longrightarrow>
   outcome operation j (opstate w) = None \<Longrightarrow>
   attempt + int j \<le> maxRetries \<Longrightarrow>
   \<exists>w'. retry_loop operation context_WithCancel_Background maxRetries attempt delay lastErr w = (None, w') \<and>
        opstate w' = state_after operation (Suc j) (opstate w) \<and>
        invocations (trace w') = invocations (trace w) + Suc j \<and>
        waits (trace w') = waits (trace w) @ map (\<lambda>k. jittered ((doubled ^^ k) delay)) [0..<j]"
proof (induction j arbitrary: attempt delay lastErr w)
  case 0
  obtain s' where op: "operation context_WithCancel_Background (opstate w) = (None, s')"
    using "0.prems"(2) by (cases "operation context_WithCancel_Background (opstate w)") (simp add: outcome_0)
  have le: "attempt \<le> maxRetries" using "0.prems"(3) by simp
  show ?case
    using op le
    by (simp add: retry_loop.simps [of _ _ _ attempt] body_success emit_def state_after_Suc)
next
  case (Suc j)
  obtain err s' where op: "operation context_WithCancel_Background (opstate w) = (err, s')"
    by (cases "operation context_WithCancel_Background (opstate w)")
  have tmp: "IsTemporary err"
    using Suc.prems(1) op by (auto simp: outcome_0 dest: spec [of _ 0])
  have lt: "attempt < maxRetries" using Suc.prems(3) by simp
  let ?w1 = "emit (Wait (jittered delay))
         (emit (Log (WarnErr ''Operation failed with temporary error, retrying'' err
                      [Text ''attempt'', Other (VInt attempt),
                       Text ''max_retries'', Other (VInt maxRetries),
                       Text ''retry_delay'', Other (VDuration delay)]))
           (emit Invoke (w\<lparr>opstate := s'\<rparr>)))"
  have st: "opstate ?w1 = s'" by (simp add: emit_def)
  have unfold: "retry_loop operation context_WithCancel_Background maxRetries attempt delay lastErr w =
        retry_loop operation context_WithCancel_Background maxRetries (attempt + 1) (doubled delay) err ?w1"
    using lt by (subst retry_loop.simps) (simp add: body_retry [where operation = operation and w = w, OF op tmp lt])
  have p1: "\<forall>k<j. IsTemporary (outcome operation k (opstate ?w1))"
    using Suc.prems(1) op by (auto simp: st outcome_Suc dest: spec [of _ "Suc k" for k])
  have p2: "outcome operation j (opstate ?w1) = None"
    using Suc.prems(2) op by (simp add: st outcome_Suc)
  have p3: "attempt + 1 + int j \<le> maxRetries" using Suc.prems(3) by simp
  from Suc.IH [OF p1 p2 p3, of "doubled delay" err]
  obtain w' where w': "retry_loop operation context_WithCancel_Background maxRetries (attempt + 1) (doubled delay) err ?w1 = (None, w')"
      "opstate w' = state_after operation (Suc j) (opstate ?w1)"
      "invocations (trace w') = invocations (trace ?w1) + Suc j"
      "waits (trace w') = waits (trace ?w1) @ map (\<lambda>k. jittered ((doubled ^^ k) (doubled delay))) [0..<j]"
    by blast
  have m: "map (\<lambda>k. jittered ((doubled ^^ k) delay)) [0..<Suc j] =
           jittered delay # map (\<lambda>k. jittered ((doubled ^^ k) (doubled delay))) [0..<j]"
    by (simp only: map_upt_Suc funpow_Suc_right o_apply funpow_0)
  show ?case
    unfolding unfold m
    using w' op by (simp add: st emit_def state_after_Suc [of operation "Suc j" "opstate w"])
qed

lemma retry_exhaust:
  "\<forall>k\<le>j. IsTemporary (outcome operation k (opstate w)) \<Longrightarrow>
   attempt + int j = maxRetries \<Longrightarrow>
   \<exists>w'. retry_loop operation context_WithCancel_Background maxRetries attempt delay lastErr w =
          (crdberrors_Wrap (outcome operation j (opstate w))
             (''operation failed after '' @ fmt_int maxRetries @ '' attempts''), w') \<and>
        opstate w' = state_after operation (Suc j) (opstate w) \<and>
        invocations (trace w') = invocations (trace w) + Suc j \<and>
        waits (trace w') = waits (trace w) @ map (\<lambda>k. jittered ((doubled ^^ k) delay)) [0..<j]"
proof (induction j arbitrary: attempt delay lastErr w)
  case 0
  obtain err s' where op: "operation context_WithCancel_Background (opstate w) = (err, s')"
    by (cases "operation context_WithCancel_Background (opstate w)")
  have tmp: "IsTemporary err" using "0.prems"(1) op by (simp add: outcome_0)
  have eq: "attempt = maxRetries" using "0.prems"(2) by simp
  show ?case
    using op
    by (simp add: eq retry_loop.simps [of _ _ _ maxRetries] retry_loop.simps [of _ _ _ "maxRetries + 1"]
        body_exhausted [where operation = operation and w = w, OF op tmp] emit_def state_after_Suc outcome_0)
next
  case (Suc j)
  obtain err s' where op: "operation context_WithCancel_Background (opstate w) = (err, s')"
    by (cases "operation context_WithCancel_Background (opstate w)")
  have tmp: "IsTemporary err"
    using Suc.prems(1) op by (auto simp: outcome_0 dest: spec [of _ 0])
  have lt: "attempt < maxRetries" using Suc.prems(2) by simp
  let ?w1 = "emit (Wait (jittered delay))
         (emit (Log (WarnErr ''Operation failed with temporary error, retrying'' err
                      [Text ''attempt'', Other (VInt attempt),
                       Text ''max_retries'', Other (VInt maxRetries),
                       Text ''retry_delay'', Other (VDuration delay)]))
           (emit Invoke (w\<lparr>opstate := s'\<rparr>)))"
  have st: "opstate ?w1 = s'" by (simp add: emit_def)
  have unfold: "retry_loop operation context_WithCancel_Background maxRetries attempt delay lastErr w =
        retry_loop operation context_WithCancel_Background maxRetries (attempt + 1) (doubled delay) err ?w1"
    using lt by (subst retry_loop.simps) (simp add: body_retry [where operation = operation and w = w, OF op tmp lt])
  have p1: "\<forall>k\<le>j. IsTemporary (outcome operation k (opstate ?w1))"
    using Suc.prems(1) op by (auto simp: st outcome_Suc dest: spec [of _ "Suc k" for k])
  have p3: "attempt + 1 + int j = maxRetries" using Suc.prems(2) by simp
  from Suc.IH [OF p1 p3, of "doubled delay" err]
  obtain w' where w': "retry_loop operation context_WithCancel_Background maxRetries (attempt + 1) (doubled delay) err ?w1 =
          (crdberrors_Wrap (outcome operation j (opstate ?w1))
             (''operation failed after '' @ fmt_int maxRetries @ '' attempts''), w')"
      "opstate w' = state_after operation (Suc j) (opstate ?w1)"
      "invocations (trace w') = invocations (trace ?w1) + Suc j"
      "waits (trace w') = waits (trace ?w1) @ map (\<lambda>k. jittered ((doubled ^^ k) (doubled delay))) [0..<j]"
    by blast
  have m: "map (\<lambda>k. jittered ((doubled ^^ k) delay)) [0..<Suc j] =
           jittered delay # map (\<lambda>k. jittered ((doubled ^^ k) (doubled delay))) [0..<j]"
    by (simp only: map_upt_Suc funpow_Suc_right o_apply funpow_0)
  show ?case
    unfolding unfold m
    using w' op by (simp add: st emit_def state_after_Suc [of operation "Suc j" "opstate w"] outcome_Suc [of operation j "opstate w"])
qed


lemma wrap64_id: "- (2 ^ 63) \<le> x \<Longrightarrow> x < 2 ^ 63 \<Longrightarrow> wrap64 x = x"
  by (simp add: wrap64_def)

lemma sdiv_nonneg: "0 \<le> (x::int) \<Longrightarrow> x sdiv 5 = x div 5"
  by (simp add: signed_divide_int_def sgn_if)

lemma jittered_in_range:
  "0 \<le> x \<Longrightarrow> x \<le> 5 * Second \<Longrightarrow> jittered x = x + x div 5"
  unfolding jittered_def
  by (subst wrap64_id) (simp_all add: sdiv_nonneg Second_def)

lemma doubled_in_range:
  "0 \<le> x \<Longrightarrow> x \<le> 5 * Second \<Longrightarrow> doubled x = min (x * 2) (5 * Second)"
  unfolding doubled_def
  by (subst wrap64_id) (auto simp: Second_def Let_def min_def wrap64_id)

lemma doubled_pow:
  "0 \<le> d \<Longrightarrow> d \<le> 5 * Second \<Longrightarrow> (doubled ^^ k) d = min (d * 2 ^ k) (5 * Second)"
proof (induction k)
  case 0
  then show ?case by simp
next
  case (Suc k)
  have nn: "0 \<le> min (d * 2 ^ k) (5 * Second)" using Suc.prems by (simp add: Second_def)
  have le: "min (d * 2 ^ k) (5 * Second) \<le> 5 * Second" by simp
  show ?case
    using Suc doubled_in_range [OF nn le]
    by (simp add: min_def Second_def algebra_simps)
qed

lemma schedule_closed_form:
  "0 \<le> d \<Longrightarrow> d \<le> 5 * Second \<Longrightarrow>
   jittered ((doubled ^^ k) d) = min (d * 2 ^ k) (5 * Second) + min (d * 2 ^ k) (5 * Second) div 5"
  by (simp add: doubled_pow jittered_in_range Second_def)

lemma NewExchangeError_IsTemporary [simp]: "IsTemporary (NewExchangeError c m r) = r"
  by (cases r)
     (simp_all add: NewExchangeError_def Let_def IsTemporary_def
      MarkTemporary_def MarkPermanent_def ErrTemporary_def ErrPermanent_def
      crdberrors_Is_def crdberrors_Mark_def crdberrors_WithDomain_def crdberrors_WithStack_def
      crdberrors_WithDetail_def crdberrors_WithHint_def crdberrors_WithTelemetry_def)

lemma fetch_outcomes:
  "IsTemporary (outcome fetch_operation 0 \<lparr>failureCount = 0\<rparr>)"
  "IsTemporary (outcome fetch_operation (Suc 0) \<lparr>failureCount = 0\<rparr>)"
  "outcome fetch_operation (Suc (Suc 0)) \<lparr>failureCount = 0\<rparr> = None"
  by (simp_all add: outcome_def state_after_def fetch_operation_def FetchPrice_def Let_def
      wrap64_def)

lemma fmt3: "fmt_int 3 = ''3''"
  by (simp add: fmt_int_def fmt_nat.simps digit_char_def)

lemma SavePrice_IsTemporary [simp]: "IsTemporary (SavePrice symbol price)"
  by (simp add: SavePrice_def Let_def IsTemporary_def WrapWithStack_def crdberrors_Wrap_def
      MarkTemporary_def ErrTemporary_def crdberrors_New_def
      crdberrors_Is_def crdberrors_Mark_def crdberrors_WithDomain_def crdberrors_WithStack_def
      crdberrors_WithHint_def)

lemma save_outcome [simp]: "outcome save_operation k u = SavePrice ''BTC/USD'' 50000"
  by (simp add: outcome_def save_operation_def)

lemma fetch_permanent:
  "outcome fetch_operation 0 \<lparr>failureCount = 3\<rparr> = NewExchangeError ''INVALID_SYMBOL'' ''symbol not found'' False"
  by (simp add: outcome_def fetch_operation_def FetchPrice_def Let_def wrap64_def)

lemma NewExchangeError_not_None [simp]: "NewExchangeError c m r \<noteq> None"
  by (simp add: NewExchangeError_def Let_def crdberrors_WithDomain_def crdberrors_WithStack_def
      crdberrors_WithDetail_def crdberrors_WithHint_def crdberrors_WithTelemetry_def
      MarkTemporary_def MarkPermanent_def crdberrors_Mark_def)

lemma jit_mono: "(x::int) < y \<Longrightarrow> x + x div 5 < y + y div 5"
  using zdiv_mono1 [of x y 5] by simp

lemma SavePrice_value:
  "SavePrice ''BTC/USD'' 50000 =
     Some (withStack (withStack (withPrefix
       (withHint (withDomain (withMark (leafError ''connection pool exhausted'') ErrTemporary)
          DomainAdapters)
          ''Database connection pool is full, retry after a short delay'')
       ''failed to save price to database'')))"
  by (simp add: SavePrice_def Let_def WrapWithStack_def crdberrors_Wrap_def
      MarkTemporary_def crdberrors_New_def crdberrors_Mark_def crdberrors_WithDomain_def
      crdberrors_WithStack_def crdberrors_WithHint_def)

lemma warned_append [simp]: "warned (t @ u) = warned t + warned u"
  by (induction t rule: warned.induct) simp_all

lemma body_balance:
  "attempt_body operation context_WithCancel_Background maxRetries attempt delay w = st \<Longrightarrow>
   (case st of Return r w' \<Rightarrow> w' | Next d e w' \<Rightarrow> w') = w' \<Longrightarrow>
   length (waits (trace w')) + warned (trace w) = warned (trace w') + length (waits (trace w))"
  by (auto simp: attempt_body_def Let_def emit_def split: prod.splits if_splits step.splits)

lemma every_wait_completes_loop:
  "length (waits (trace (snd (retry_loop operation context_WithCancel_Background maxRetries attempt
      delay lastErr w)))) + warned (trace w) =
   warned (trace (snd (retry_loop operation context_WithCancel_Background maxRetries attempt
      delay lastErr w))) + length (waits (trace w))"
proof (induction operation "context_WithCancel_Background" maxRetries attempt delay lastErr w
    rule: retry_loop.induct)
  case (1 operation maxRetries attempt delay lastErr w)
  show ?case
  proof (cases "attempt \<le> maxRetries")
    case False
    then show ?thesis by (simp add: retry_loop.simps [of _ _ _ attempt])
  next
    case True
    show ?thesis
    proof (cases "attempt_body operation context_WithCancel_Background maxRetries attempt delay w")
      case (Return r w')
      from body_balance [OF Return, of w'] show ?thesis
        using True Return by (simp add: retry_loop.simps [of _ _ _ attempt])
    next
      case (Next d e w')
      from body_balance [OF Next, of w'] "1.hyps" [OF True Next] show ?thesis
        using True Next by (simp add: retry_loop.simps [of _ _ _ attempt])
    qed
  qed
qed

lemma every_wait_completes:
  "length (waits (trace (snd (RetryWithBackoff operation maxRetries initialDelay s)))) =
   warned (trace (snd (RetryWithBackoff operation maxRetries initialDelay s)))"
  using every_wait_completes_loop [of operation maxRetries 1 initialDelay None "\<lparr>opstate = s, trace = []\<rparr>"]
  by (simp add: RetryWithBackoff_def)

text \<open>
  C1. Let \<open>maxRetries \<ge> 1\<close> and let the first invocation fail with an error that is not
  temporary (permanent or unclassified). Then the driver returns that very error, has
  invoked the operation exactly once and has not waited; the operation is left in the
  state its single invocation produced.
\<close>

theorem permanent_error_aborts:
  assumes "1 \<le> maxRetries"
    and "outcome operation 0 s \<noteq> None"
    and "\<not> IsTemporary (outcome operation 0 s)"
  shows "fst (RetryWithBackoff operation maxRetries initialDelay s) = outcome operation 0 s \<and>
         invocations (trace (snd (RetryWithBackoff operation maxRetries initialDelay s))) = 1 \<and>
         waits (trace (snd (RetryWithBackoff operation maxRetries initialDelay s))) = [] \<and>
         opstate (snd (RetryWithBackoff operation maxRetries initialDelay s)) =
           state_after operation 1 s"
proof -
  obtain err s' where op: "operation context_WithCancel_Background s = (err, s')"
    by (cases "operation context_WithCancel_Background s")
  have e: "err \<noteq> None" "\<not> IsTemporary err" using assms(2,3) op by (simp_all add: outcome_0)
  show ?thesis
    using assms(1) op e
    by (simp add: RetryWithBackoff_def retry_loop.simps [of _ _ _ 1] body_permanent emit_def
        outcome_0 state_after_def)
qed

theorem permanent_error_aborts_witness:
  "fst (RetryWithBackoff fetch_operation 5 (500 * Millisecond) \<lparr>failureCount = 3\<rparr>) =
     NewExchangeError ''INVALID_SYMBOL'' ''symbol not found'' False \<and>
   invocations (trace (snd (RetryWithBackoff fetch_operation 5 (500 * Millisecond)
     \<lparr>failureCount = 3\<rparr>))) = 1 \<and>
   waits (trace (snd (RetryWithBackoff fetch_operation 5 (500 * Millisecond)
     \<lparr>failureCount = 3\<rparr>))) = []"
  using permanent_error_aborts [of 5 fetch_operation "\<lparr>failureCount = 3\<rparr>" "500 * Millisecond"]
  by (simp add: fetch_permanent)

text \<open>
  C2, as the code has it. Let the first \<open>N - 1\<close> invocations fail with a temporary
  error and invocation \<open>N\<close> succeed, \<open>1 \<le> N \<le> maxRetries\<close>. Then the driver returns
  nil after exactly \<open>N\<close> invocations and \<open>N - 1\<close> waits. Wait number \<open>k + 1\<close> is the
  jittered value \<open>d + d / 5\<close> of the delay \<open>d\<close> of its round, and the delay of the next
  round is \<open>2 * d\<close> capped at five seconds (both in 64-bit arithmetic). When the
  initial delay lies between zero and five seconds, the delay of round \<open>k + 1\<close> is
  \<open>min (initialDelay * 2 ^ k) (5 s)\<close>; every wait of a round whose delay has reached the
  cap is six seconds; and when the initial delay is positive, a wait of a round whose
  delay is below the cap is strictly shorter than every later wait.
\<close>

theorem backoff_schedule:
  assumes "1 \<le> N" and "int N \<le> maxRetries"
    and "\<forall>k<N - 1. IsTemporary (outcome operation k s)"
    and "outcome operation (N - 1) s = None"
  shows "fst (RetryWithBackoff operation maxRetries initialDelay s) = None \<and>
         invocations (trace (snd (RetryWithBackoff operation maxRetries initialDelay s))) = N \<and>
         waits (trace (snd (RetryWithBackoff operation maxRetries initialDelay s))) =
           map (\<lambda>k. jittered ((doubled ^^ k) initialDelay)) [0..<N - 1] \<and>
         (0 \<le> initialDelay \<and> initialDelay \<le> 5 * Second \<longrightarrow>
            waits (trace (snd (RetryWithBackoff operation maxRetries initialDelay s))) =
              map (\<lambda>k. min (initialDelay * 2 ^ k) (5 * Second) +
                        min (initialDelay * 2 ^ k) (5 * Second) div 5) [0..<N - 1] \<and>
            (\<forall>k<N - 1. 5 * Second \<le> initialDelay * 2 ^ k \<longrightarrow>
               waits (trace (snd (RetryWithBackoff operation maxRetries initialDelay s))) ! k =
                 6 * Second) \<and>
            (\<forall>i j. i < j \<and> j < N - 1 \<and> 0 < initialDelay \<and> initialDelay * 2 ^ i < 5 * Second \<longrightarrow>
               waits (trace (snd (RetryWithBackoff operation maxRetries initialDelay s))) ! i <
               waits (trace (snd (RetryWithBackoff operation maxRetries initialDelay s))) ! j))"
proof -
  let ?w = "\<lparr>opstate = s, trace = []\<rparr>"
  let ?W = "waits (trace (snd (RetryWithBackoff operation maxRetries initialDelay s)))"
  let ?f = "\<lambda>k. min (initialDelay * 2 ^ k) (5 * Second) +
                 min (initialDelay * 2 ^ k) (5 * Second) div 5"
  have a3: "1 + int (N - 1) \<le> maxRetries" using assms(1,2) by simp
  from retry_schedule [of "N - 1" operation ?w 1 maxRetries initialDelay None] assms(3,4) a3
  obtain w' where w': "RetryWithBackoff operation maxRetries initialDelay s = (None, w')"
     "invocations (trace w') = Suc (N - 1)"
     "waits (trace w') = map (\<lambda>k. jittered ((doubled ^^ k) initialDelay)) [0..<N - 1]"
    by (auto simp: RetryWithBackoff_def)
  have main: "fst (RetryWithBackoff operation maxRetries initialDelay s) = None"
    "invocations (trace (snd (RetryWithBackoff operation maxRetries initialDelay s))) = N"
    "?W = map (\<lambda>k. jittered ((doubled ^^ k) initialDelay)) [0..<N - 1]"
    using w' assms(1) by simp_all
  have closed: "?W = map ?f [0..<N - 1]" if "0 \<le> initialDelay" "initialDelay \<le> 5 * Second"
    using main(3) that by (simp add: schedule_closed_form)
  have capped: "?W ! k = 6 * Second"
    if "0 \<le> initialDelay" "initialDelay \<le> 5 * Second" "k < N - 1"
       "5 * Second \<le> initialDelay * 2 ^ k" for k
    using closed [OF that(1,2)] that(3,4) by (simp add: min_def Second_def)
  have incr: "?W ! i < ?W ! j"
    if "0 \<le> initialDelay" "initialDelay \<le> 5 * Second" "i < j" "j < N - 1" "0 < initialDelay"
       "initialDelay * 2 ^ i < 5 * Second" for i j
  proof -
    have "(2::int) ^ i < 2 ^ j" using that(3) by simp
    then have "initialDelay * 2 ^ i < initialDelay * 2 ^ j" using that(5) by simp
    then have "min (initialDelay * 2 ^ i) (5 * Second) < min (initialDelay * 2 ^ j) (5 * Second)"
      using that(6) by simp
    then have lt: "?f i < ?f j" by (rule jit_mono)
    have Wi: "?W ! i = ?f i" and Wj: "?W ! j = ?f j"
      using closed [OF that(1,2)] that(3,4) by simp_all
    show ?thesis unfolding Wi Wj by (rule lt)
  qed
  show ?thesis
    using main closed capped incr by (intro conjI impI allI) auto
qed

text \<open>
  The scenario P7 of the specification: three attempts allowed, 100 ms initial delay,
  two temporary failures and a success. The waits are 120 ms and 240 ms.
\<close>

theorem backoff_schedule_witness:
  "fst (RetryWithBackoff fetch_operation 3 (100 * Millisecond) \<lparr>failureCount = 0\<rparr>) = None \<and>
   invocations (trace (snd (RetryWithBackoff fetch_operation 3 (100 * Millisecond)
     \<lparr>failureCount = 0\<rparr>))) = 3 \<and>
   waits (trace (snd (RetryWithBackoff fetch_operation 3 (100 * Millisecond)
     \<lparr>failureCount = 0\<rparr>))) = [120 * Millisecond, 240 * Millisecond]"
proof -
  have h1: "1 \<le> (3::nat)" and h2: "int 3 \<le> 3" by simp_all
  have h3: "\<forall>k<3 - 1. IsTemporary (outcome fetch_operation k \<lparr>failureCount = 0\<rparr>)"
    using fetch_outcomes(1,2) by (simp add: less_Suc_eq numeral_2_eq_2)
  have h4: "outcome fetch_operation (3 - 1) \<lparr>failureCount = 0\<rparr> = None"
    using fetch_outcomes(3) by (simp add: numeral_2_eq_2)
  have u: "[0..<2] = [0, Suc 0]" by (simp add: upt_rec)
  show ?thesis
    using backoff_schedule [OF h1 h2 h3 h4, of "100 * Millisecond"]
    by (simp add: u Millisecond_def Second_def jittered_def doubled_def wrap64_def
        signed_divide_int_def)
qed

text \<open>
  C2 as stated fails: the waits need not increase. With an initial delay of ten
  seconds the first wait is twelve seconds and the second is six; with an initial delay
  of zero every wait is zero.
\<close>

theorem backoff_not_increasing:
  "waits (trace (snd (RetryWithBackoff fetch_operation 3 (10 * Second) \<lparr>failureCount = 0\<rparr>))) =
     [12 * Second, 6 * Second] \<and>
   waits (trace (snd (RetryWithBackoff fetch_operation 3 0 \<lparr>failureCount = 0\<rparr>))) = [0, 0]"
proof -
  let ?w = "\<lparr>opstate = \<lparr>failureCount = 0\<rparr>, trace = []\<rparr>"
  have h3: "\<forall>k<2. IsTemporary (outcome fetch_operation k (opstate ?w))"
    using fetch_outcomes(1,2) by (simp add: less_Suc_eq numeral_2_eq_2)
  have h4: "outcome fetch_operation 2 (opstate ?w) = None"
    using fetch_outcomes(3) by (simp add: numeral_2_eq_2)
  have h5: "1 + int 2 \<le> 3" by simp
  have u: "[0..<2] = [0, Suc 0]" by (simp add: upt_rec)
  have j: "jittered (10 * Second) = 12 * Second" "jittered (doubled (10 * Second)) = 6 * Second"
     "jittered 0 = 0" "doubled 0 = 0"
    by (simp_all add: jittered_def doubled_def wrap64_def Second_def signed_divide_int_def)
  from retry_schedule [OF h3 h4 h5, of "10 * Second" None]
  have a: "waits (trace (snd (RetryWithBackoff fetch_operation 3 (10 * Second)
      \<lparr>failureCount = 0\<rparr>))) = [12 * Second, 6 * Second]"
    by (auto simp: RetryWithBackoff_def u j)
  from retry_schedule [OF h3 h4 h5, of 0 None]
  have b: "waits (trace (snd (RetryWithBackoff fetch_operation 3 0 \<lparr>failureCount = 0\<rparr>))) = [0, 0]"
    by (auto simp: RetryWithBackoff_def u j)
  show ?thesis using a b by simp
qed

text \<open>
  The two loops agree as long as the counter cannot overflow: for \<open>maxRetries\<close> below
  the largest \<^verbatim>\<open>int\<close> the driver returns, and returns what the loop with the unbounded
  counter computes.
\<close>

lemma loops_agree:
  "maxRetries < MaxInt \<Longrightarrow> 1 \<le> attempt \<Longrightarrow>
   retry_loop_int64 operation ctx maxRetries attempt delay lastErr w =
   Some (retry_loop operation ctx maxRetries attempt delay lastErr w)"
proof (induction operation ctx maxRetries attempt delay lastErr w rule: retry_loop.induct)
  case (1 operation ctx maxRetries attempt delay lastErr w)
  show ?case
  proof (cases "attempt \<le> maxRetries")
    case False
    then show ?thesis
      by (simp add: retry_loop.simps [of _ _ _ attempt] retry_loop_int64.simps [of _ _ _ attempt])
  next
    case True
    have w: "wrap64 (attempt + 1) = attempt + 1"
      using True "1.prems" by (intro wrap64_id) (simp_all add: MaxInt_def)
    show ?thesis
    proof (cases "attempt_body operation ctx maxRetries attempt delay w")
      case (Return r w')
      then show ?thesis
        using True
        by (simp add: retry_loop.simps [of _ _ _ attempt] retry_loop_int64.simps [of _ _ _ attempt])
    next
      case (Next d e w')
      have "retry_loop_int64 operation ctx maxRetries (attempt + 1) d e w' =
            Some (retry_loop operation ctx maxRetries (attempt + 1) d e w')"
        using "1.IH" [OF True Next] "1.prems" by simp
      then show ?thesis
        using True Next w
        by (simp add: retry_loop.simps [of _ _ _ attempt] retry_loop_int64.simps [of _ _ _ attempt])
    qed
  qed
qed

lemma drivers_agree:
  "maxRetries < MaxInt \<Longrightarrow>
   RetryWithBackoff_int64 operation maxRetries initialDelay s =
   Some (RetryWithBackoff operation maxRetries initialDelay s)"
  by (simp add: RetryWithBackoff_int64_def RetryWithBackoff_def loops_agree)

text \<open>
  For \<open>1 \<le> maxRetries < MaxInt\<close>: when each of the first \<open>maxRetries\<close> invocations
  fails with a temporary error, the driver invokes the operation exactly \<open>maxRetries\<close>
  times and returns a non-nil error that wraps the error \<open>e\<close> of the last invocation;
  its text is \<open>operation failed after maxRetries attempts: \<close> followed by the text
  of \<open>e\<close>.
\<close>

lemma retries_exhausted_below_MaxInt:
  assumes "1 \<le> maxRetries" and "maxRetries < MaxInt"
    and "\<forall>k<nat maxRetries. IsTemporary (outcome operation k s)"
  shows "\<exists>e w. outcome operation (nat maxRetries - 1) s = Some e \<and>
           RetryWithBackoff_int64 operation maxRetries initialDelay s =
             Some (Some (withStack (withPrefix e
               (''operation failed after '' @ fmt_int maxRetries @ '' attempts''))), w) \<and>
           Error (withStack (withPrefix e
               (''operation failed after '' @ fmt_int maxRetries @ '' attempts''))) =
             ''operation failed after '' @ fmt_int maxRetries @ '' attempts: '' @ Error e \<and>
           invocations (trace w) = nat maxRetries"
proof -
  let ?w = "\<lparr>opstate = s, trace = []\<rparr>"
  let ?j = "nat maxRetries - 1"
  have a1: "\<forall>k\<le>?j. IsTemporary (outcome operation k (opstate ?w))"
    using assms by auto
  have a2: "1 + int ?j = maxRetries" using assms(1) by simp
  from retry_exhaust [OF a1 a2, of initialDelay None]
  obtain w' where w': "RetryWithBackoff operation maxRetries initialDelay s =
       (crdberrors_Wrap (outcome operation ?j s)
             (''operation failed after '' @ fmt_int maxRetries @ '' attempts''), w')"
     "invocations (trace w') = Suc ?j"
    by (auto simp: RetryWithBackoff_def)
  have "IsTemporary (outcome operation ?j s)" using a1 by simp
  then obtain e where e: "outcome operation ?j s = Some e"
    using IsTemporary_not_None by (cases "outcome operation ?j s") auto
  show ?thesis
    using w' e assms(1) drivers_agree [OF assms(2), of operation initialDelay s]
    by (simp add: crdberrors_Wrap_def)
qed

lemma retries_exhausted_example:
  "\<exists>w. RetryWithBackoff_int64 save_operation 3 (100 * Millisecond) () =
        Some (crdberrors_Wrap (SavePrice ''BTC/USD'' 50000) ''operation failed after 3 attempts'', w) \<and>
      invocations (trace w) = 3"
proof -
  have h1: "(1::int) \<le> 3" and h2: "(3::int) < MaxInt" by (simp_all add: MaxInt_def)
  have h3: "\<forall>k<nat 3. IsTemporary (outcome save_operation k ())" by simp
  show ?thesis
    using retries_exhausted_below_MaxInt [OF h1 h2 h3, of "100 * Millisecond"]
    by (auto simp: SavePrice_value fmt3 crdberrors_Wrap_def)
qed

text \<open>
  With \<open>maxRetries = MaxInt\<close> and an operation that fails with a temporary error in
  every state, the loop condition \<^verbatim>\<open>attempt <= maxRetries\<close> holds for every value the
  counter takes, before and after it wraps around, and no pass through the body
  returns: the driver never returns.
\<close>

lemma loop_runs_forever_aux:
  assumes "retry_loop_int64 operation ctx maxRetries attempt delay lastErr w = Some y"
  shows "ctx = context_WithCancel_Background \<and> maxRetries = MaxInt \<and>
   (\<forall>s. IsTemporary (fst (operation context_WithCancel_Background s))) \<and>
   - (2 ^ 63) \<le> attempt \<and> attempt \<le> MaxInt \<longrightarrow> False"
proof (rule retry_loop_int64.raw_induct
    [where P = "\<lambda>operation ctx maxRetries attempt delay lastErr w y.
       ctx = context_WithCancel_Background \<and> maxRetries = MaxInt \<and>
       (\<forall>s. IsTemporary (fst (operation context_WithCancel_Background s))) \<and>
       - (2 ^ 63) \<le> attempt \<and> attempt \<le> MaxInt \<longrightarrow> False", OF _ assms], goal_cases)
  case (1 loop operation ctx maxRetries attempt delay lastErr w y)
  show ?case
  proof
    assume inv: "ctx = context_WithCancel_Background \<and> maxRetries = MaxInt \<and>
      (\<forall>s. IsTemporary (fst (operation context_WithCancel_Background s))) \<and>
      - (2 ^ 63) \<le> attempt \<and> attempt \<le> MaxInt"
    obtain err s' where op: "operation context_WithCancel_Background (opstate w) = (err, s')"
      by (cases "operation context_WithCancel_Background (opstate w)")
    have tmp: "IsTemporary err" using inv op by (metis fst_conv)
    have rng: "- (2 ^ 63) \<le> wrap64 (attempt + 1) \<and> wrap64 (attempt + 1) \<le> MaxInt"
      by (simp add: wrap64_def MaxInt_def)
    have c: "ctx = context_WithCancel_Background" and le: "attempt \<le> maxRetries"
      using inv by simp_all
    show False
    proof (cases "attempt < maxRetries")
      case True
      have b: "attempt_body operation ctx maxRetries attempt delay w =
        Next (doubled delay) err
          (emit (Wait (jittered delay))
            (emit (Log (WarnErr ''Operation failed with temporary error, retrying'' err
                      [Text ''attempt'', Other (VInt attempt),
                       Text ''max_retries'', Other (VInt maxRetries),
                       Text ''retry_delay'', Other (VDuration delay)]))
              (emit Invoke (w\<lparr>opstate := s'\<rparr>))))"
        unfolding c by (rule body_retry [where operation = operation and w = w, OF op tmp True])
      from "1"(2) le have "loop operation ctx maxRetries (wrap64 (attempt + 1)) (doubled delay) err
          (emit (Wait (jittered delay))
            (emit (Log (WarnErr ''Operation failed with temporary error, retrying'' err
                      [Text ''attempt'', Other (VInt attempt),
                       Text ''max_retries'', Other (VInt maxRetries),
                       Text ''retry_delay'', Other (VDuration delay)]))
              (emit Invoke (w\<lparr>opstate := s'\<rparr>)))) = Some y"
        by (simp add: b)
      from "1"(1) [OF this] inv rng show False by blast
    next
      case False
      have b: "attempt_body operation ctx maxRetries attempt delay w =
        Next delay err
          (emit (Log (ErrorErr ''Operation failed after max retries'' err
                [Text ''attempt'', Other (VInt attempt),
                 Text ''max_retries'', Other (VInt maxRetries)]))
            (emit Invoke (w\<lparr>opstate := s'\<rparr>)))"
        unfolding c by (rule body_exhausted [where operation = operation and w = w, OF op tmp False])
      from "1"(2) le have "loop operation ctx maxRetries (wrap64 (attempt + 1)) delay err
          (emit (Log (ErrorErr ''Operation failed after max retries'' err
                [Text ''attempt'', Other (VInt attempt),
                 Text ''max_retries'', Other (VInt maxRetries)]))
            (emit Invoke (w\<lparr>opstate := s'\<rparr>))) = Some y"
        by (simp add: b)
      from "1"(1) [OF this] inv rng show False by blast
    qed
  qed
qed

lemma driver_runs_forever:
  "\<forall>s. IsTemporary (fst (operation context_WithCancel_Background s)) \<Longrightarrow>
   RetryWithBackoff_int64 operation MaxInt initialDelay s = None"
proof (cases "RetryWithBackoff_int64 operation MaxInt initialDelay s")
  case None
  then show ?thesis .
next
  case (Some y)
  assume "\<forall>s. IsTemporary (fst (operation context_WithCancel_Background s))"
  with loop_runs_forever_aux [OF Some [unfolded RetryWithBackoff_int64_def]]
  show ?thesis by (simp add: MaxInt_def)
qed

text \<open>
  C3 on the code. The claim holds for every \<open>maxRetries\<close> from 1 up to, but not
  including, the largest \<^verbatim>\<open>int\<close> (\<open>retries_exhausted_below_MaxInt\<close>). At the largest
  \<^verbatim>\<open>int\<close> it fails: with an operation that always fails temporarily, the driver does
  not stop after \<open>maxRetries\<close> invocations and never returns an error.
\<close>

theorem retry_never_returns_at_MaxInt:
  "RetryWithBackoff_int64 save_operation MaxInt (100 * Millisecond) () = None"
  by (rule driver_runs_forever) (simp add: save_operation_def)

text \<open>
  C5. When \<open>maxRetries \<le> 0\<close> the loop body never runs: the driver returns nil, the
  operation has not been invoked, nothing has been logged and nothing waited for.
\<close>

theorem no_attempts_returns_nil:
  "maxRetries \<le> 0 \<Longrightarrow>
   RetryWithBackoff operation maxRetries initialDelay s = (None, \<lparr>opstate = s, trace = []\<rparr>)"
  by (simp add: RetryWithBackoff_def retry_loop.simps crdberrors_Wrap_def)

theorem no_attempts_returns_nil_witness:
  "RetryWithBackoff fetch_operation 0 (500 * Millisecond) \<lparr>failureCount = 0\<rparr> =
     (None, \<lparr>opstate = \<lparr>failureCount = 0\<rparr>, trace = []\<rparr>) \<and>
   RetryWithBackoff fetch_operation (- 2) (500 * Millisecond) \<lparr>failureCount = 0\<rparr> =
     (None, \<lparr>opstate = \<lparr>failureCount = 0\<rparr>, trace = []\<rparr>)"
  using no_attempts_returns_nil [of 0 fetch_operation "500 * Millisecond" "\<lparr>failureCount = 0\<rparr>"]
        no_attempts_returns_nil [of "- 2" fetch_operation "500 * Millisecond" "\<lparr>failureCount = 0\<rparr>"]
  by simp

text \<open>
  C6 on the code. The driver takes an operation, an attempt bound and an initial delay;
  the context whose \<open>Done\<close> channel the wait races against is made inside the driver
  and is cancelled by nobody before the driver returns, so no caller can interrupt a
  wait: in every run, every wait the driver announces runs to completion. With two
  attempts, a 100 ms initial delay and an operation that always fails temporarily, the
  driver sits out the whole 120 ms wait, invokes the operation a second time and
  returns the wrapped error, never a cancellation error.
\<close>

theorem wait_runs_to_completion:
  "length (waits (trace (snd (RetryWithBackoff operation maxRetries initialDelay s)))) =
     warned (trace (snd (RetryWithBackoff operation maxRetries initialDelay s))) \<and>
   map_option Error (fst (RetryWithBackoff save_operation 2 (100 * Millisecond) ())) =
     Some (''operation failed after 2 attempts: '' @
           ''failed to save price to database: connection pool exhausted'') \<and>
   fst (RetryWithBackoff save_operation 2 (100 * Millisecond) ()) \<noteq> Some context_Canceled \<and>
   invocations (trace (snd (RetryWithBackoff save_operation 2 (100 * Millisecond) ()))) = 2 \<and>
   waits (trace (snd (RetryWithBackoff save_operation 2 (100 * Millisecond) ()))) =
     [120 * Millisecond]"
proof -
  let ?w = "\<lparr>opstate = (), trace = []\<rparr>"
  have h1: "\<forall>k\<le>1. IsTemporary (outcome save_operation k (opstate ?w))" by simp
  have h2: "1 + int 1 = 2" by simp
  have f2: "fmt_int 2 = ''2''" by (simp add: fmt_int_def fmt_nat.simps digit_char_def)
  have j: "jittered (100 * Millisecond) = 120 * Millisecond"
    by (simp add: jittered_def wrap64_def Millisecond_def signed_divide_int_def)
  from retry_exhaust [OF h1 h2, of "100 * Millisecond" None]
  have run: "map_option Error (fst (RetryWithBackoff save_operation 2 (100 * Millisecond) ())) =
     Some (''operation failed after 2 attempts: '' @
           ''failed to save price to database: connection pool exhausted'') \<and>
   fst (RetryWithBackoff save_operation 2 (100 * Millisecond) ()) \<noteq> Some context_Canceled \<and>
   invocations (trace (snd (RetryWithBackoff save_operation 2 (100 * Millisecond) ()))) = 2 \<and>
   waits (trace (snd (RetryWithBackoff save_operation 2 (100 * Millisecond) ()))) =
     [120 * Millisecond]"
    by (auto simp: RetryWithBackoff_def SavePrice_value f2 j crdberrors_Wrap_def
        context_Canceled_def)
  show ?thesis
    using every_wait_completes [of operation maxRetries initialDelay s] run by (intro conjI) simp_all
qed

section \<open>Properties of the logging facade\<close>

lemma key_text_case: "(case key of Text t \<Rightarrow> t | Other x \<Rightarrow> Sprint key) = key_text Sprint key"
  by (cases key) simp_all

lemma pairs_short: "length xs \<le> 1 \<Longrightarrow> pairs Sprint xs = []"
  by (induction Sprint xs rule: pairs.induct) simp_all

lemma loop_pairs:
  "argsToAttrs_loop Sprint kv i attrs = attrs @ pairs Sprint (drop i kv)"
proof (induction Sprint kv i attrs rule: argsToAttrs_loop.induct)
  case (1 Sprint kv i attrs)
  show ?case
  proof (cases "i + 1 < length kv")
    case True
    then have d: "drop i kv = kv ! i # kv ! (i + 1) # drop (i + 2) kv"
      by (simp add: Cons_nth_drop_Suc)
    show ?thesis
      using True "1.IH" [OF True refl refl refl]
      by (subst argsToAttrs_loop.simps) (simp add: Let_def d key_text_case)
  next
    case False
    then have "length (drop i kv) \<le> 1" by simp
    then have "pairs Sprint (drop i kv) = []" by (rule pairs_short)
    then show ?thesis
      using False by (subst argsToAttrs_loop.simps) simp
  qed
qed

lemma pairs_length: "length (pairs Sprint kv) = length kv div 2"
  by (induction Sprint kv rule: pairs.induct) simp_all

lemma pairs_snoc_even: "even (length kv) \<Longrightarrow> pairs Sprint (kv @ [x]) = pairs Sprint kv"
  by (induction Sprint kv rule: pairs.induct) simp_all

lemma pairs_butlast: "odd (length kv) \<Longrightarrow> pairs Sprint (butlast kv) = pairs Sprint kv"
proof -
  assume o: "odd (length kv)"
  then have ne: "kv \<noteq> []" by auto
  then have "kv = butlast kv @ [last kv]" by simp
  moreover have "even (length (butlast kv))" using o ne by simp
  ultimately show ?thesis using pairs_snoc_even [of "butlast kv" Sprint "last kv"] by simp
qed

lemma argsToAttrs_pairs_eq: "argsToAttrs Sprint kv = pairs Sprint kv"
proof (cases "length kv mod 2 \<noteq> 0")
  case True
  then have o: "odd (length kv)" by presburger
  have t: "take (length kv - Suc 0) kv = butlast kv" by (simp add: butlast_conv_take)
  show ?thesis
    using True by (simp add: argsToAttrs_def Let_def t loop_pairs pairs_butlast [OF o])
next
  case False
  then show ?thesis
    by (simp add: argsToAttrs_def Let_def loop_pairs)
qed

lemma pairs_nth:
  "i < length kv div 2 \<Longrightarrow>
   pairs Sprint kv ! i = Attr (key_text Sprint (kv ! (2 * i))) (kv ! (2 * i + 1))"
proof (induction Sprint kv arbitrary: i rule: pairs.induct)
  case (1 Sprint k v rest)
  then show ?case by (cases i) simp_all
qed simp_all

text \<open>
  C7. The attribute list made from \<open>n\<close> key-value arguments has exactly \<open>n div 2\<close>
  entries; entry \<open>i\<close> pairs the text of argument \<open>2 * i\<close> (the argument itself when it
  is a text, its default stringification otherwise) with argument \<open>2 * i + 1\<close>; and
  when \<open>n\<close> is odd the last argument is dropped: the list is the one made from the
  arguments without it.
\<close>

theorem argsToAttrs_drops_unmatched:
  "length (argsToAttrs Sprint kv) = length kv div 2 \<and>
   (\<forall>i<length kv div 2.
      argsToAttrs Sprint kv ! i =
        Attr (case kv ! (2 * i) of Text t \<Rightarrow> t | Other x \<Rightarrow> Sprint (kv ! (2 * i))) (kv ! (2 * i + 1))) \<and>
   (odd (length kv) \<longrightarrow> argsToAttrs Sprint kv = argsToAttrs Sprint (butlast kv))"
  by (simp add: argsToAttrs_pairs_eq pairs_length pairs_nth pairs_butlast key_text_case)


theorem argsToAttrs_drops_unmatched_witness:
  "length (argsToAttrs (\<lambda>a. case a of Text t \<Rightarrow> t | Other i \<Rightarrow> fmt_int i)
      [Text ''attempt'', Other 3, Other 7, Text ''x'', Text ''dangling'']) = 2 \<and>
   argsToAttrs (\<lambda>a. case a of Text t \<Rightarrow> t | Other i \<Rightarrow> fmt_int i)
      [Text ''attempt'', Other 3, Other 7, Text ''x'', Text ''dangling''] ! 1 = Attr ''7'' (Text ''x'') \<and>
   argsToAttrs (\<lambda>a. case a of Text t \<Rightarrow> t | Other i \<Rightarrow> fmt_int i)
      [Text ''attempt'', Other 3, Other 7, Text ''x'', Text ''dangling''] =
   argsToAttrs (\<lambda>a. case a of Text t \<Rightarrow> t | Other i \<Rightarrow> fmt_int i)
      [Text ''attempt'', Other 3, Other 7, Text ''x'']"
proof -
  let ?S = "\<lambda>a. case a of Text t \<Rightarrow> t | Other i \<Rightarrow> fmt_int i"
  let ?kv = "[Text ''attempt'', Other 3, Other 7, Text ''x'', Text ''dangling'']"
  note t = argsToAttrs_drops_unmatched [of ?S ?kv]
  have f7: "fmt_int 7 = ''7''" by (simp add: fmt_int_def fmt_nat.simps digit_char_def)
  have a: "length (argsToAttrs ?S ?kv) = 2" using t [THEN conjunct1] by simp
  have b: "argsToAttrs ?S ?kv ! 1 = Attr ''7'' (Text ''x'')"
    using t [THEN conjunct2, THEN conjunct1, rule_format, of 1] by (simp add: f7)
  have c: "argsToAttrs ?S ?kv = argsToAttrs ?S [Text ''attempt'', Other 3, Other 7, Text ''x'']"
    using t [THEN conjunct2, THEN conjunct2] by simp
  show ?thesis using a b c by (intro conjI)
qed

section \<open>Properties of the user service\<close>

lemma New_dom: "fmdom (users (NewUserService t1 t2 t3)) = {|1, 2, 3|}"
  by (auto simp: NewUserService_def)

lemma New_len: "len_users (NewUserService t1 t2 t3) = 3"
  by (simp add: len_users_def New_dom fcard_finsert_if)

lemma GetUser_frame: "snd (GetUser s now uid) = s"
  by (simp add: GetUser_def Let_def split: option.splits)

lemma reachable_keys: "reachable s \<Longrightarrow> fset (fmdom (users s)) = {1..len_users s}"
proof (induction rule: reachable.induct)
  case (init t1 t2 t3)
  show ?case by (auto simp: New_len New_dom)
next
  case (get s now uid)
  then show ?case by (simp add: GetUser_frame)
next
  case (create s now name email)
  show ?case
  proof (cases "name = [] \<or> email = []")
    case True
    then have "snd (CreateUser s now name email) = s"
      by (auto simp: CreateUser_def Let_def)
    then show ?thesis using create.IH by simp
  next
    case False
    let ?L = "len_users s"
    have L0: "0 \<le> ?L" by (simp add: len_users_def)
    have fresh: "?L + 1 |\<notin>| fmdom (users s)" using create.IH by simp
    have d: "fmdom (users (snd (CreateUser s now name email))) = finsert (?L + 1) (fmdom (users s))"
      using False by (simp add: CreateUser_def Let_def)
    have l: "len_users (snd (CreateUser s now name email)) = ?L + 1"
      using fresh by (simp add: len_users_def [of "snd (CreateUser s now name email)"] d fcard_finsert_disjoint)
         (simp add: len_users_def)
    have "{1..?L + 1} = insert (?L + 1) {1..?L}" using L0 by auto
    then show ?thesis using create.IH by (simp add: d l)
  qed
qed

lemma reachable_fresh_key: "reachable s \<Longrightarrow> len_users s + 1 |\<notin>| fmdom (users s)"
  using reachable_keys [of s] by simp

text \<open>
  The frame of the two methods on an arbitrary store value. \<open>GetUser\<close> leaves the
  store as it is; \<open>CreateUser\<close> with an empty name or an empty email returns an error
  and leaves the store as it is; with a non-empty name and email, and when
  \<open>len(users) + 1\<close> is not yet a key, it adds exactly that key.
\<close>

lemma CreateUser_frame_fresh_key:
  "snd (GetUser s now uid) = s \<and>
   (name = [] \<or> email = [] \<longrightarrow>
      snd (CreateUser s now name email) = s \<and> snd (fst (CreateUser s now name email)) \<noteq> None) \<and>
   (name \<noteq> [] \<and> email \<noteq> [] \<and> len_users s + 1 |\<notin>| fmdom (users s) \<longrightarrow>
      snd (fst (CreateUser s now name email)) = None \<and>
      fmdom (users (snd (CreateUser s now name email))) = finsert (len_users s + 1) (fmdom (users s)) \<and>
      len_users (snd (CreateUser s now name email)) = len_users s + 1 \<and>
      fmlookup (users (snd (CreateUser s now name email))) (len_users s + 1) =
        Some \<lparr>ID = len_users s + 1, Name = name, Email = email, CreatedAt = now\<rparr> \<and>
      (\<forall>k. k |\<in>| fmdom (users s) \<longrightarrow>
         fmlookup (users (snd (CreateUser s now name email))) k = fmlookup (users s) k))"
proof -
  have g: "snd (GetUser s now uid) = s"
    by (simp add: GetUser_def Let_def split: option.splits)
  have v: "snd (CreateUser s now name email) = s \<and> snd (fst (CreateUser s now name email)) \<noteq> None"
    if "name = [] \<or> email = []"
    using that
    by (auto simp: CreateUser_def Let_def crdberrors_New_def crdberrors_WithDomain_def
        MarkPermanent_def crdberrors_Mark_def crdberrors_WithHint_def)
  have c: "snd (fst (CreateUser s now name email)) = None \<and>
      fmdom (users (snd (CreateUser s now name email))) = finsert (len_users s + 1) (fmdom (users s)) \<and>
      len_users (snd (CreateUser s now name email)) = len_users s + 1 \<and>
      fmlookup (users (snd (CreateUser s now name email))) (len_users s + 1) =
        Some \<lparr>ID = len_users s + 1, Name = name, Email = email, CreatedAt = now\<rparr> \<and>
      (\<forall>k. k |\<in>| fmdom (users s) \<longrightarrow>
         fmlookup (users (snd (CreateUser s now name email))) k = fmlookup (users s) k)"
    if "name \<noteq> []" "email \<noteq> []" "len_users s + 1 |\<notin>| fmdom (users s)"
  proof -
    have eq: "CreateUser s now name email =
      ((Some \<lparr>ID = len_users s + 1, Name = name, Email = email, CreatedAt = now\<rparr>, None),
       s\<lparr>users := fmupd (len_users s + 1)
            \<lparr>ID = len_users s + 1, Name = name, Email = email, CreatedAt = now\<rparr> (users s)\<rparr>)"
      using that(1,2) by (simp add: CreateUser_def Let_def)
    have card: "fcard (finsert (len_users s + 1) (fmdom (users s))) = Suc (fcard (fmdom (users s)))"
      using that(3) by (simp add: fcard_finsert_disjoint)
    show ?thesis
      unfolding eq using that(3) card
      by (auto simp: len_users_def)
  qed
  show ?thesis using g v c by blast
qed


text \<open>
  C9. On every store the program can hold: \<open>GetUser\<close> leaves the store as it is;
  \<open>CreateUser\<close> with an empty name or an empty email returns an error and leaves the
  store as it is; \<open>CreateUser\<close> with a non-empty name and email returns no error,
  adds exactly one new entry, keyed \<open>len(users) + 1\<close> (a key the store did not have)
  and holding the new user, makes the store one entry longer and leaves every existing
  entry as it was.
\<close>

theorem user_store_frame:
  assumes "reachable s"
  shows "snd (GetUser s now uid) = s \<and>
   (name = [] \<or> email = [] \<longrightarrow>
      snd (CreateUser s now name email) = s \<and>
      snd (fst (CreateUser s now name email)) \<noteq> None) \<and>
   (name \<noteq> [] \<and> email \<noteq> [] \<longrightarrow>
      snd (fst (CreateUser s now name email)) = None \<and>
      len_users s + 1 |\<notin>| fmdom (users s) \<and>
      fmdom (users (snd (CreateUser s now name email))) =
        finsert (len_users s + 1) (fmdom (users s)) \<and>
      len_users (snd (CreateUser s now name email)) = len_users s + 1 \<and>
      fmlookup (users (snd (CreateUser s now name email))) (len_users s + 1) =
        Some \<lparr>ID = len_users s + 1, Name = name, Email = email, CreatedAt = now\<rparr> \<and>
      (\<forall>k. k |\<in>| fmdom (users s) \<longrightarrow>
         fmlookup (users (snd (CreateUser s now name email))) k = fmlookup (users s) k))"
  using CreateUser_frame_fresh_key [of s now uid name email] reachable_fresh_key [OF assms]
  by blast

text \<open>
  On the store of \<open>NewUserService\<close>, and on the store after one more user has been
  created.
\<close>

theorem user_store_frame_witness:
  "snd (GetUser (NewUserService 100 100 100) 101 999) = NewUserService 100 100 100 \<and>
   snd (CreateUser (NewUserService 100 100 100) 101 [] ''nobody@example.com'') =
     NewUserService 100 100 100 \<and>
   len_users (snd (CreateUser (NewUserService 100 100 100) 101 ''David''
     ''david@example.com'')) = 4 \<and>
   fmlookup (users (snd (CreateUser (NewUserService 100 100 100) 101 ''David''
     ''david@example.com''))) 4 =
     Some \<lparr>ID = 4, Name = ''David'', Email = ''david@example.com'', CreatedAt = 101\<rparr> \<and>
   fmlookup (users (snd (CreateUser (NewUserService 100 100 100) 101 ''David''
     ''david@example.com''))) 1 =
     Some \<lparr>ID = 1, Name = ''Alice'', Email = ''alice@example.com'', CreatedAt = 100\<rparr> \<and>
   len_users (snd (CreateUser (snd (CreateUser (NewUserService 100 100 100) 101 ''David''
     ''david@example.com'')) 102 ''Erin'' ''erin@example.com'')) = 5"
proof -
  let ?s = "NewUserService 100 100 100"
  let ?s' = "snd (CreateUser ?s 101 ''David'' ''david@example.com'')"
  have r: "reachable ?s" by (rule reachable.init)
  have r': "reachable ?s'" using r by (rule reachable.create)
  note v = user_store_frame [OF r, of 101 999 "[]" "''nobody@example.com''"]
  note c = user_store_frame [OF r, of 101 999 "''David''" "''david@example.com''"]
  note d = user_store_frame [OF r', of 102 999 "''Erin''" "''erin@example.com''"]
  have a1: "fmlookup (users ?s) 1 =
      Some \<lparr>ID = 1, Name = ''Alice'', Email = ''alice@example.com'', CreatedAt = 100\<rparr>"
    by (simp add: NewUserService_def)
  have g: "snd (GetUser ?s 101 999) = ?s" using v by blast
  have w: "snd (CreateUser ?s 101 [] ''nobody@example.com'') = ?s" using v by simp
  have k: "len_users ?s' = 4 \<and>
     fmlookup (users ?s') 4 =
       Some \<lparr>ID = 4, Name = ''David'', Email = ''david@example.com'', CreatedAt = 101\<rparr> \<and>
     fmlookup (users ?s') 1 = fmlookup (users ?s) 1"
    using c by (simp add: New_len New_dom)
  have e: "len_users (snd (CreateUser ?s' 102 ''Erin'' ''erin@example.com'')) = 5"
    using d k by simp
  show ?thesis using g w k a1 e by simp
qed

end
